theory Spec2Isabelle
  imports Main "HOL-Library.Sublist"
begin

section \<open>Python values, strings and exceptions\<close>

text \<open>
  A Python \<open>str\<close> is a sequence of Unicode code points; it is modelled as a list of
  natural numbers, so that the Hungarian letters of the labels (some of them beyond
  U+00FF) and the glyph of the square metre are single characters, as they are for
  \<open>re\<close> and for \<open>==\<close>. \<open>u\<close> turns an ASCII literal into such a string.
\<close>

type_synonym ustr = "nat list"

definition u :: "string \<Rightarrow> ustr" where
  "u cs = map of_char cs"

text \<open>The values that end up in a row: \<open>None\<close>, an \<open>int\<close> or a \<open>str\<close>.\<close>

datatype pyval = PNone | PInt int | PStr ustr

datatype exn = URLError | IndexError | KeyError | AttributeError | TypeError

text \<open>Sequencing of statements that may raise: the first exception ends the block.\<close>

definition bind_exn :: "exn + 'a \<Rightarrow> ('a \<Rightarrow> exn + 'b) \<Rightarrow> exn + 'b" where
  "bind_exn m f = (case m of Inl e \<Rightarrow> Inl e | Inr x \<Rightarrow> f x)"

text \<open>
  \<open>s.replace(old, new)\<close>: the occurrences of \<open>old\<close> are replaced from left to right,
  without overlap; an empty \<open>old\<close> matches before every character and at the end.
\<close>

function str_replace :: "ustr \<Rightarrow> ustr \<Rightarrow> ustr \<Rightarrow> ustr" where
  "str_replace old new s =
     (if old = [] then new @ concat (map (\<lambda>c. c # new) s)
      else if prefix old s then new @ str_replace old new (drop (length old) s)
      else (case s of [] \<Rightarrow> [] | c # cs \<Rightarrow> c # str_replace old new cs))"
  by pat_completeness auto
termination
  by (relation "measure (\<lambda>(old, new, s). length s)") (auto simp: prefix_def)

declare str_replace.simps [simp del]

section \<open>The regular expressions of the scripts\<close>

text \<open>
  The patterns of both scripts are sequences of single-character items, each taken once
  or under a greedy \<open>?\<close>, \<open>+\<close> or \<open>*\<close>, with capture groups around runs of items and
  \<open>^\<close> in one of them. No flag changes the classes: \<open>.\<close> is any character but a
  newline, \<open>^\<close> is the start of the string, \<open>[A-Z]\<close> is the ASCII range. \<open>\s\<close> is
  Unicode whitespace. \<open>\d\<close> is a Unicode decimal digit; the first one after
  \<open>9\<close> is U+0660, and the model is exact on text below that code point.
\<close>

datatype cls = Lit nat | Digit | Space | Upper | Dot

fun mem :: "cls \<Rightarrow> nat \<Rightarrow> bool" where
  "mem (Lit a) c = (c = a)"
| "mem Digit c = (48 \<le> c \<and> c \<le> 57)"
| "mem Space c = ((9 \<le> c \<and> c \<le> 13) \<or> (28 \<le> c \<and> c \<le> 32) \<or> c = 133 \<or> c = 160
     \<or> c = 5760 \<or> (8192 \<le> c \<and> c \<le> 8202) \<or> c = 8232 \<or> c = 8233 \<or> c = 8239
     \<or> c = 8287 \<or> c = 12288)"
| "mem Upper c = (65 \<le> c \<and> c \<le> 90)"
| "mem Dot c = (c \<noteq> 10)"

datatype item = One cls | Opt cls | Plus cls | Star cls | GOpen nat | GClose nat | Bol

type_synonym caps = "(nat \<times> nat \<times> nat) list"

text \<open>The alternatives of a backtracking matcher, tried in order: the first success wins.\<close>

fun first_some :: "('a \<Rightarrow> 'b option) \<Rightarrow> 'a list \<Rightarrow> 'b option" where
  "first_some f [] = None"
| "first_some f (x # xs) = (case f x of Some y \<Rightarrow> Some y | None \<Rightarrow> first_some f xs)"

text \<open>The length of the longest run of characters of a class from position \<open>i\<close>.\<close>

definition run :: "cls \<Rightarrow> ustr \<Rightarrow> nat \<Rightarrow> nat" where
  "run k s i = length (takeWhile (mem k) (drop i s))"

definition close_group :: "nat \<Rightarrow> nat \<Rightarrow> caps \<Rightarrow> caps" where
  "close_group n i c = (case map_of c n of None \<Rightarrow> c | Some (b, _) \<Rightarrow> (n, b, i) # c)"

text \<open>
  \<open>bt s items i c\<close> matches the items against \<open>s\<close> from position \<open>i\<close>, with the
  groups \<open>c\<close> captured so far, and gives the end position and the groups of the first
  match in backtracking order: a greedy quantifier takes the longest run first and gives
  characters back one at a time.
\<close>

fun bt :: "ustr \<Rightarrow> item list \<Rightarrow> nat \<Rightarrow> caps \<Rightarrow> (nat \<times> caps) option" where
  "bt s [] i c = Some (i, c)"
| "bt s (Bol # r) i c = (if i = 0 then bt s r i c else None)"
| "bt s (GOpen n # r) i c = bt s r i ((n, i, i) # c)"
| "bt s (GClose n # r) i c = bt s r i (close_group n i c)"
| "bt s (One k # r) i c = (if 1 \<le> run k s i then bt s r (i + 1) c else None)"
| "bt s (Opt k # r) i c =
     first_some (\<lambda>j. bt s r (i + j) c) (if 1 \<le> run k s i then [1, 0] else [0])"
| "bt s (Plus k # r) i c = first_some (\<lambda>j. bt s r (i + j) c) (rev [1 ..< Suc (run k s i)])"
| "bt s (Star k # r) i c = first_some (\<lambda>j. bt s r (i + j) c) (rev [0 ..< Suc (run k s i)])"

text \<open>
  \<open>regex.search(s)\<close>: the match at the leftmost position that has one, \<open>None\<close> when no
  position has. The result is the start, the end and the groups.
\<close>

definition search :: "item list \<Rightarrow> ustr \<Rightarrow> (nat \<times> nat \<times> caps) option" where
  "search re s =
     first_some (\<lambda>i. map_option (\<lambda>(e, c). (i, e, c)) (bt s re i [])) [0 ..< Suc (length s)]"

text \<open>\<open>m.group(n)\<close> for a group that took part in the match.\<close>

definition group_of :: "ustr \<Rightarrow> (nat \<times> nat \<times> caps) \<Rightarrow> nat \<Rightarrow> ustr" where
  "group_of s m n = (case map_of (snd (snd m)) n of
                    None \<Rightarrow> [] | Some (b, e) \<Rightarrow> take (e - b) (drop b s))"

text \<open>A literal run of characters in a pattern.\<close>

definition lits :: "ustr \<Rightarrow> item list" where
  "lits w = map (\<lambda>a. One (Lit a)) w"


text \<open>
  \<open>regex.search(x).group(1)\<close>, where \<open>x\<close> may be \<open>None\<close>: \<open>search\<close> raises
  TypeError on \<open>None\<close>, and \<open>group\<close> on the \<open>None\<close> of a failed search raises
  AttributeError.
\<close>

definition search_group1 :: "item list \<Rightarrow> ustr option \<Rightarrow> exn + ustr" where
  "search_group1 re x =
     (case x of None \<Rightarrow> Inl TypeError
      | Some t \<Rightarrow> (case search re t of None \<Rightarrow> Inl AttributeError
                   | Some m \<Rightarrow> Inr (group_of t m 1)))"

section \<open>The parsed detail page\<close>

text \<open>
  The document tree comes from the HTML parser; the script reads it through a handful
  of queries, and the model of a page is what those queries return:
  \<^item> \<open>meta_tags\<close>: \<open>soup.find_all('meta')\<close>, each tag by its \<open>content\<close> attribute
    (\<open>None\<close> when the tag has none);
  \<^item> \<open>title_tag\<close>: \<open>soup.find('title')\<close>, \<open>None\<close> when there is no such tag, and
    otherwise its \<open>.string\<close>, itself \<open>None\<close> or a string;
  \<^item> \<open>texts_before\<close> and \<open>texts_after\<close>: the strings of the document in document
    order, those that come before the string of the title and those that come after it;
  \<^item> \<open>src_tags\<close>: the tags that have a \<open>src\<close> attribute, in document order, each as
    the attribute's value and the markup \<open>str\<close> renders the tag to;
  \<^item> \<open>listing_b\<close>: \<open>soup.find('b', class_="listing-id")\<close> and its \<open>.string\<close>;
  \<^item> \<open>td_tags\<close>: \<open>soup.find_all('td')\<close>, each cell by its \<open>.string\<close> and by what
    \<open>td.next_element.next_element.next_element.string\<close> evaluates to: an
    AttributeError when one of the hops is \<open>None\<close>, otherwise \<open>None\<close> or a string.
\<close>

record td =
  td_string :: "ustr option"
  td_value :: "exn + ustr option"

record soup =
  meta_tags :: "ustr option list"
  title_tag :: "ustr option option"
  texts_before :: "ustr list"
  texts_after :: "ustr list"
  src_tags :: "(ustr \<times> ustr) list"
  listing_b :: "ustr option option"
  td_tags :: "td list"

text \<open>
  The strings of the document in document order. The string of the title is one of
  them, in its place: \<open>soup.find(text=regex)\<close> walks all of them and returns the first
  one the regex finds a match in.
\<close>

definition text_nodes :: "soup \<Rightarrow> ustr list" where
  "text_nodes s =
     texts_before s
     @ (case title_tag s of Some (Some t) \<Rightarrow> [t] | _ \<Rightarrow> [])
     @ texts_after s"

definition find_text :: "item list \<Rightarrow> soup \<Rightarrow> ustr option" where
  "find_text re s = List.find (\<lambda>t. search re t \<noteq> None) (text_nodes s)"

fun of_string :: "ustr option \<Rightarrow> pyval" where
  "of_string None = PNone"
| "of_string (Some t) = PStr t"

subsection \<open>Meta description: district and city area\<close>

definition meta :: "soup \<Rightarrow> exn + ustr" where
  "meta s =
     (if length (meta_tags s) \<le> 4 then Inl IndexError
      else (case meta_tags s ! 4 of None \<Rightarrow> Inl KeyError
            | Some c \<Rightarrow> Inr (str_replace [10] [] c)))"

definition district_regex :: "item list" where
  "district_regex =
     [GOpen 1, Plus Digit] @ lits (u ''.'') @ [One Space] @ lits (u ''ker'') @ [GClose 1, One Dot]
     @ lits (u ''let'')"

definition district :: "ustr \<Rightarrow> ustr" where
  "district m = (case search district_regex m of None \<Rightarrow> [] | Some r \<Rightarrow> group_of m r 1)"

definition varos_regex :: "item list" where
  "varos_regex = lits (u ''('') @ [GOpen 1, One Upper, Plus Dot, GClose 1] @ lits (u '')'')"

definition varos :: "ustr \<Rightarrow> ustr" where
  "varos m = (case search varos_regex m of None \<Rightarrow> [] | Some r \<Rightarrow> group_of m r 1)"

subsection \<open>Title, price, area\<close>

definition title :: "soup \<Rightarrow> exn + ustr" where
  "title s =
     (case title_tag s of None \<Rightarrow> Inl AttributeError
      | Some None \<Rightarrow> Inl AttributeError
      | Some (Some t) \<Rightarrow> Inr (str_replace [10] [] t))"

definition price_marker :: "item list" where
  "price_marker = lits (u ''Ft'')"

definition price_regex :: "item list" where
  "price_regex = [GOpen 1, Plus Digit, Opt (Lit 44), Plus Digit, GClose 1]"

text \<open>The two statements that follow \<open>price = soup.find(text=price_regex)\<close>.\<close>

definition price_from :: "ustr option \<Rightarrow> exn + ustr" where
  "price_from node =
     bind_exn (search_group1 price_regex node) (\<lambda>g.
     bind_exn (search_group1 price_regex (Some (str_replace (u '' Ft'') [] g))) (\<lambda>g'.
       Inr (str_replace (u '','') (u ''.'') g')))"

definition price :: "soup \<Rightarrow> exn + ustr" where
  "price s = price_from (find_text price_marker s)"

definition area_marker :: "item list" where
  "area_marker = lits (u ''m'' @ [178])"

definition area_regex :: "item list" where
  "area_regex = [GOpen 1, Plus Digit, GClose 1]"

definition area :: "soup \<Rightarrow> exn + ustr" where
  "area s = search_group1 area_regex (find_text area_marker s)"

subsection \<open>Rooms\<close>

definition rooms_regex :: "item list" where
  "rooms_regex = lits (u ''szoba'')"

definition rooms :: "soup \<Rightarrow> ustr option" where
  "rooms s = find_text rooms_regex s"

definition fullrooms_regex :: "item list" where
  "fullrooms_regex = [Bol, GOpen 1, Plus Digit, GClose 1]"

definition fullrooms :: "ustr \<Rightarrow> pyval" where
  "fullrooms r = (case search fullrooms_regex r of None \<Rightarrow> PInt 0
                  | Some m \<Rightarrow> PStr (group_of r m 1))"

definition halfrooms_regex :: "item list" where
  "halfrooms_regex =
     lits (u ''+'') @ [GOpen 1, Opt Space, GClose 1, GOpen 2, Opt Digit, GClose 2, Plus Dot]
     @ lits (u ''f'' @ [233] @ u ''l'')"

definition halfrooms :: "ustr \<Rightarrow> pyval" where
  "halfrooms r =
     (case search halfrooms_regex r of None \<Rightarrow> PInt 0
      | Some m \<Rightarrow> if group_of r m 1 = [] then PInt 1 else PStr (group_of r m 2))"

subsection \<open>Coordinates and listing identifier\<close>

fun join :: "ustr \<Rightarrow> ustr list \<Rightarrow> ustr" where
  "join sep [] = []"
| "join sep [x] = x"
| "join sep (x # y # ys) = x @ sep @ join sep (y # ys)"

definition coord_regex :: "item list" where
  "coord_regex = lits (u ''center'')"

text \<open>\<open>str\<close> of the list that \<open>find_all(src=coord_regex)\<close> returns.\<close>

definition coord :: "soup \<Rightarrow> ustr" where
  "coord s =
     u ''['' @ join (u '', '')
       (map snd (filter (\<lambda>t. search coord_regex (fst t) \<noteq> None) (src_tags s))) @ u '']''"

definition lat_regex :: "item list" where
  "lat_regex = [GOpen 1] @ lits (u ''47.'') @ [Plus Digit, GClose 1] @ lits (u '','')"

definition long_regex :: "item list" where
  "long_regex = [GOpen 1] @ lits (u ''19.'') @ [Plus Digit, GClose 1]"

definition lat :: "soup \<Rightarrow> exn + ustr" where
  "lat s = search_group1 lat_regex (Some (coord s))"

definition long :: "soup \<Rightarrow> exn + ustr" where
  "long s = search_group1 long_regex (Some (coord s))"

definition listing :: "soup \<Rightarrow> exn + pyval" where
  "listing s = (case listing_b s of None \<Rightarrow> Inl AttributeError
                | Some v \<Rightarrow> Inr (of_string v))"

subsection \<open>The attribute table\<close>

record attrs =
  condition :: pyval
  floor :: pyval
  storeys :: pyval
  lift :: pyval
  ceiling :: pyval
  heating :: pyval
  aircon :: pyval
  bathtoil :: pyval
  orient :: pyval
  view :: pyval
  balcony :: pyval
  parking :: pyval
  garcess :: pyval
  utility :: pyval

definition no_attrs :: attrs where
  "no_attrs =
     \<lparr>condition = PStr [], floor = PStr [], storeys = PStr [], lift = PStr [],
      ceiling = PStr [], heating = PStr [], aircon = PStr [], bathtoil = PStr [],
      orient = PStr [], view = PStr [], balcony = PStr [], parking = PStr [],
      garcess = PStr [], utility = PStr []\<rparr>"

text \<open>The labels of the table, letter by letter where they leave ASCII.\<close>

definition l_condition :: ustr where "l_condition = u ''Ingatlan '' @ [225] @ u ''llapota''"
definition l_floor :: ustr where "l_floor = u ''Emelet''"
definition l_storeys :: ustr where "l_storeys = [201] @ u ''p'' @ [252] @ u ''let szintjei''"
definition l_lift :: ustr where "l_lift = u ''Lift''"
definition l_ceiling :: ustr where "l_ceiling = u ''Belmagass'' @ [225] @ u ''g''"
definition l_heating :: ustr where "l_heating = u ''F'' @ [369] @ u ''t'' @ [233] @ u ''s''"
definition l_aircon :: ustr where
  "l_aircon = u ''L'' @ [233] @ u ''gkondicion'' @ [225] @ u ''l'' @ [243]"
definition l_bathtoil :: ustr where
  "l_bathtoil = u ''F'' @ [252] @ u ''rd'' @ [337] @ u '' '' @ [233] @ u ''s WC''"
definition l_orient :: ustr where "l_orient = u ''T'' @ [225] @ u ''jol'' @ [225] @ u ''s''"
definition l_view :: ustr where "l_view = u ''Kil'' @ [225] @ u ''t'' @ [225] @ u ''s''"
definition l_balcony :: ustr where "l_balcony = u ''Erk'' @ [233] @ u ''ly''"
definition l_parking :: ustr where "l_parking = u ''Parkol'' @ [225] @ u ''s''"
definition l_garcess :: ustr where "l_garcess = u ''Tet'' @ [337] @ u ''t'' @ [233] @ u ''r''"
definition l_utility :: ustr where "l_utility = u ''Komfort''"

definition bal_regex :: "item list" where
  "bal_regex = [GOpen 1, Plus Digit, Opt (Lit 46), Plus Digit, GClose 1]"

text \<open>
  The balcony branch searches the value it read: \<open>search\<close> raises TypeError when the
  value is \<open>None\<close>.
\<close>

definition balcony_value :: "ustr option \<Rightarrow> exn + pyval" where
  "balcony_value v =
     (case v of None \<Rightarrow> Inl TypeError
      | Some b \<Rightarrow> (case search bal_regex b of None \<Rightarrow> Inr (PInt 0)
                   | Some m \<Rightarrow> Inr (PStr (group_of b m 1))))"

text \<open>One pass of the body of \<open>for td in soup.find_all('td')\<close>.\<close>

definition td_step :: "td \<Rightarrow> attrs \<Rightarrow> exn + attrs" where
  "td_step c a =
     (if td_string c = Some l_condition then
        bind_exn (td_value c) (\<lambda>v. Inr (a\<lparr>condition := of_string v\<rparr>))
      else if td_string c = Some l_floor then
        bind_exn (td_value c) (\<lambda>v. Inr (a\<lparr>floor := of_string v\<rparr>))
      else if td_string c = Some l_storeys then
        bind_exn (td_value c) (\<lambda>v. Inr (a\<lparr>storeys := of_string v\<rparr>))
      else if td_string c = Some l_lift then
        bind_exn (td_value c) (\<lambda>v. Inr (a\<lparr>lift := of_string v\<rparr>))
      else if td_string c = Some l_ceiling then
        bind_exn (td_value c) (\<lambda>v. Inr (a\<lparr>ceiling := of_string v\<rparr>))
      else if td_string c = Some l_heating then
        bind_exn (td_value c) (\<lambda>v. Inr (a\<lparr>heating := of_string v\<rparr>))
      else if td_string c = Some l_aircon then
        bind_exn (td_value c) (\<lambda>v. Inr (a\<lparr>aircon := of_string v\<rparr>))
      else if td_string c = Some l_bathtoil then
        bind_exn (td_value c) (\<lambda>v. Inr (a\<lparr>bathtoil := of_string v\<rparr>))
      else if td_string c = Some l_orient then
        bind_exn (td_value c) (\<lambda>v. Inr (a\<lparr>orient := of_string v\<rparr>))
      else if td_string c = Some l_view then
        bind_exn (td_value c) (\<lambda>v. Inr (a\<lparr>view := of_string v\<rparr>))
      else if td_string c = Some l_balcony then
        bind_exn (td_value c) (\<lambda>v.
        bind_exn (balcony_value v) (\<lambda>b. Inr (a\<lparr>balcony := b\<rparr>)))
      else if td_string c = Some l_parking then
        bind_exn (td_value c) (\<lambda>v. Inr (a\<lparr>parking := of_string v\<rparr>))
      else if td_string c = Some l_garcess then
        bind_exn (td_value c) (\<lambda>v. Inr (a\<lparr>garcess := of_string v\<rparr>))
      else if td_string c = Some l_utility then
        bind_exn (td_value c) (\<lambda>v. Inr (a\<lparr>utility := of_string v\<rparr>))
      else Inr a)"

fun td_loop :: "td list \<Rightarrow> attrs \<Rightarrow> exn + attrs" where
  "td_loop [] a = Inr a"
| "td_loop (c # cs) a = bind_exn (td_step c a) (td_loop cs)"

subsection \<open>One record\<close>

text \<open>
  The body of the \<open>try\<close> block after the page is parsed, in the order of the script;
  the result is the one row of \<open>values\<close>, or the first exception.
\<close>

definition extract_values :: "soup \<Rightarrow> exn + pyval list" where
  "extract_values s =
     bind_exn (meta s) (\<lambda>m.
     bind_exn (title s) (\<lambda>t.
     bind_exn (price s) (\<lambda>p.
     bind_exn (area s) (\<lambda>ar.
     bind_exn (case rooms s of None \<Rightarrow> Inl TypeError | Some r \<Rightarrow> Inr r) (\<lambda>r.
     bind_exn (lat s) (\<lambda>la.
     bind_exn (long s) (\<lambda>lo.
     bind_exn (listing s) (\<lambda>li.
     bind_exn (td_loop (td_tags s) no_attrs) (\<lambda>a.
       Inr [li, PStr p, PStr ar, PStr r, fullrooms r, halfrooms r, PStr (district m),
            PStr (varos m), condition a, floor a, storeys a, lift a, heating a, view a,
            PStr la, PStr lo, orient a, parking a, balcony a, aircon a, ceiling a,
            utility a, bathtoil a, garcess a])))))))))"

section \<open>The extractor's loop over the URLs\<close>

text \<open>
  The state of the run: the rows written to the output file, the error counter and the
  iteration counter. The input of an iteration is what fetching and parsing the URL
  yields: an exception or the parsed page. The bare \<open>except\<close> catches every exception
  of the block.
\<close>

record xstate =
  rows :: "pyval list list"
  err_count :: nat
  count :: nat

definition attempt :: "exn + soup \<Rightarrow> exn + pyval list" where
  "attempt page = bind_exn page extract_values"

definition iteration :: "xstate \<Rightarrow> exn + soup \<Rightarrow> xstate" where
  "iteration st page =
     (case attempt page of
        Inl e \<Rightarrow> st\<lparr>err_count := err_count st + 1\<rparr>
      | Inr r \<Rightarrow> st\<lparr>rows := rows st @ [r], count := count st + 1\<rparr>)"

fun url_loop :: "(exn + soup) list \<Rightarrow> xstate \<Rightarrow> xstate" where
  "url_loop [] st = st"
| "url_loop (page # pages) st = url_loop pages (iteration st page)"

definition extractor :: "(exn + soup) list \<Rightarrow> xstate" where
  "extractor pages = url_loop pages \<lparr>rows = [], err_count = 0, count = 1\<rparr>"

section \<open>The collector of listing URLs\<close>

definition href_regex :: "item list" where
  "href_regex = lits (u ''/'') @ [GOpen 1, Plus Digit, GClose 1, Opt (Lit 35)]"

text \<open>The body of \<open>for tag in tags_a\<close>, on the \<open>href\<close> of the tag.\<close>

definition href_url :: "ustr \<Rightarrow> exn + ustr" where
  "href_url h = (case search href_regex h of None \<Rightarrow> Inl AttributeError
                 | Some m \<Rightarrow> Inr (u ''http://ingatlan.com/'' @ group_of h m 1))"

fun build_list :: "ustr list \<Rightarrow> ustr list \<Rightarrow> exn + ustr list" where
  "build_list [] href_list = Inr href_list"
| "build_list (h # hs) href_list =
     bind_exn (href_url h) (\<lambda>href. build_list hs (href_list @ [href]))"


definition list_set :: "(ustr list \<Rightarrow> ustr list) \<Rightarrow> ustr list \<Rightarrow> ustr list" where
  "list_set ord xs = ord (remdups xs)"

text \<open>
  The state of the collector: the rows written and the error counter. A results page is
  an exception of fetching and parsing, or the \<open>href\<close>s of the anchors selected. Only
  fetching and parsing stand inside the \<open>try\<close>: an exception of the link loop ends the
  run, with the state as it is at that point.
\<close>

record cstate =
  c_rows :: "ustr list list"
  c_err_count :: nat

datatype outcome = Finished cstate | Uncaught exn cstate

definition emitted :: "(ustr list \<Rightarrow> ustr list) \<Rightarrow> ustr list \<Rightarrow> exn + ustr list" where
  "emitted ord tags_a = bind_exn (build_list tags_a []) (\<lambda>href_list. Inr (list_set ord href_list))"

fun page_loop :: "(ustr list \<Rightarrow> ustr list) \<Rightarrow> (exn + ustr list) list \<Rightarrow> cstate \<Rightarrow> outcome" where
  "page_loop ord [] st = Finished st"
| "page_loop ord (page # pages) st =
     (case page of
        Inl e \<Rightarrow> page_loop ord pages (st\<lparr>c_err_count := c_err_count st + 1\<rparr>)
      | Inr tags_a \<Rightarrow>
          (case emitted ord tags_a of
             Inl e \<Rightarrow> Uncaught e st
           | Inr href_list \<Rightarrow>
               page_loop ord pages (st\<lparr>c_rows := c_rows st @ map (\<lambda>href. [href]) href_list\<rparr>)))"

definition collector :: "(ustr list \<Rightarrow> ustr list) \<Rightarrow> (exn + ustr list) list \<Rightarrow> outcome" where
  "collector ord pages = page_loop ord pages \<lparr>c_rows = [], c_err_count = 0\<rparr>"

section \<open>The district pattern as the specification words it\<close>

text \<open>
  The specification writes the district pattern with \<open>\s*\<close> between the dot and
  \<open>ker\<close>, where the script has a single \<open>\s\<close>. This is the field as the
  specification describes it, to be compared with \<open>district\<close>.
\<close>

definition spec_district_regex :: "item list" where
  "spec_district_regex =
     [GOpen 1, Plus Digit] @ lits (u ''.'') @ [Star Space] @ lits (u ''ker'')
     @ [GClose 1, One Dot] @ lits (u ''let'')"

definition spec_district :: "ustr \<Rightarrow> ustr" where
  "spec_district m =
     (case search spec_district_regex m of None \<Rightarrow> [] | Some r \<Rightarrow> group_of m r 1)"

section \<open>Sample inputs\<close>

text \<open>
  A detail page with everything the script looks for, whose strings are its title and
  then a given list of texts, and the texts used as fixtures below.
\<close>

definition sample_meta :: ustr where
  "sample_meta = u ''Budapest 5. ker'' @ [252] @ u ''let (Belv'' @ [225] @ u ''ros) elad'' @ [243]"

definition sample_page :: "ustr list \<Rightarrow> soup" where
  "sample_page ts =
     \<lparr>meta_tags = replicate 5 (Some sample_meta),
      title_tag = Some (Some (u ''Elad'' @ [243] @ u '' lak'' @ [225] @ u ''s'')),
      texts_before = [],
      texts_after = ts,
      src_tags = [(u ''logo.png'', u ''<img src=logo.png/>''),
                  (u ''map?center=47.5,19.05'', u ''<img src=map?center=47.5,19.05/>'')],
      listing_b = Some (Some (u ''123'')),
      td_tags = [\<lparr>td_string = Some l_lift, td_value = Inr (Some (u ''van''))\<rparr>,
                 \<lparr>td_string = Some l_balcony, td_value = Inr (Some (u ''5.5 m''))\<rparr>]\<rparr>"

definition fel :: ustr where
  "fel = u ''f'' @ [233] @ u ''l''"

definition sample_texts :: "ustr list" where
  "sample_texts = [u ''31,9 M Ft'', u ''55 m'' @ [178], u ''3 + 1 '' @ fel @ u '' szoba'']"




text \<open>
  A page with nothing but what the script cannot do without: no table cell, no room
  count, no district in the meta description, a listing element without a string.
\<close>

definition bare_page :: soup where
  "bare_page =
     \<lparr>meta_tags = replicate 5 (Some (u ''Budapest'')),
      title_tag = Some (Some (u ''Budapest'')),
      texts_before = [u ''html''],
      texts_after = [u ''10 Ft'', u ''5 m'' @ [178], u ''szoba''],
      src_tags = [(u ''map?center=47.5,19.05'', u ''<img src=map?center=47.5,19.05/>'')],
      listing_b = Some None,
      td_tags = []\<rparr>"

definition bare_row :: "pyval list" where
  "bare_row =
     [PNone, PStr (u ''10''), PStr (u ''5''), PStr (u ''szoba''), PInt 0, PInt 0,
      PStr [], PStr [],
      PStr [], PStr [], PStr [], PStr [], PStr [], PStr [],
      PStr (u ''47.5''), PStr (u ''19.05''), PStr [], PStr [], PStr [],
      PStr [], PStr [], PStr [], PStr [], PStr []]"

section \<open>Facts about the matcher\<close>

lemma first_some_SomeD: "first_some f xs = Some y \<Longrightarrow> \<exists>x\<in>set xs. f x = Some y"
  by (induction xs) (auto split: option.splits)

lemma first_some_None_iff: "first_some f xs = None \<longleftrightarrow> (\<forall>x\<in>set xs. f x = None)"
  by (induction xs) (auto split: option.splits)

lemma run_ge1: "Suc 0 \<le> run k s i \<longleftrightarrow> i < length s \<and> mem k (s ! i)"
proof (cases "i < length s")
  case True
  then have "drop i s = s ! i # drop (Suc i) s"
    by (simp add: Cons_nth_drop_Suc)
  then show ?thesis using True by (simp add: run_def)
next
  case False
  then show ?thesis by (simp add: run_def)
qed

lemma prefix_drop_Cons:
  "prefix (a # w) (drop i s) \<longleftrightarrow> i < length s \<and> s ! i = a \<and> prefix w (drop (Suc i) s)"
proof (cases "i < length s")
  case True
  then have "drop i s = s ! i # drop (Suc i) s"
    by (simp add: Cons_nth_drop_Suc)
  then show ?thesis using True by auto
next
  case False
  then show ?thesis by simp
qed

text \<open>A literal run matches exactly where the text continues with it.\<close>

lemma bt_lits:
  "bt s (lits w @ r) i c = (if prefix w (drop i s) then bt s r (i + length w) c else None)"
proof (induction w arbitrary: i)
  case Nil
  then show ?case by (simp add: lits_def)
next
  case (Cons a w)
  have "bt s (lits (a # w) @ r) i c =
          (if 1 \<le> run (Lit a) s i then bt s (lits w @ r) (i + 1) c else None)"
    by (simp add: lits_def)
  then show ?case
    by (simp add: Cons.IH run_ge1 prefix_drop_Cons)
qed

text \<open>Searching for a literal succeeds exactly on the texts that contain it.\<close>

lemma search_lits: "search (lits w) s \<noteq> None \<longleftrightarrow> sublist w s"
proof
  assume "search (lits w) s \<noteq> None"
  then obtain m where "search (lits w) s = Some m" by blast
  then obtain i where "map_option (\<lambda>(e, c). (i, e, c)) (bt s (lits w) i []) = Some m"
    unfolding search_def by (blast dest: first_some_SomeD)
  then have "bt s (lits w @ []) i [] \<noteq> None" by auto
  then have "prefix w (drop i s)"
    unfolding bt_lits by (simp split: if_splits)
  then obtain ss where "drop i s = w @ ss" by (auto simp: prefix_def)
  then have "s = take i s @ w @ ss"
    by (metis append_take_drop_id)
  then show "sublist w s" unfolding sublist_def by blast
next
  assume "sublist w s"
  then obtain ps ss where s: "s = ps @ w @ ss" unfolding sublist_def by blast
  then have "prefix w (drop (length ps) s)" by simp
  then have "bt s (lits w @ []) (length ps) [] \<noteq> None"
    unfolding bt_lits by simp
  moreover have "length ps \<in> set [0 ..< Suc (length s)]" using s by simp
  ultimately show "search (lits w) s \<noteq> None"
    unfolding search_def first_some_None_iff by force
qed

text \<open>Items that neither open nor close a group leave its capture as it was.\<close>

lemma bt_keeps_group:
  "bt s items i c = Some (e, c') \<Longrightarrow> GOpen n \<notin> set items \<Longrightarrow> GClose n \<notin> set items
   \<Longrightarrow> map_of c' n = map_of c n"
proof (induction s items i c rule: bt.induct)
  case (1 s i c)
  then show ?case by simp
next
  case (2 s r i c)
  then show ?case by (simp split: if_splits)
next
  case (3 s m r i c)
  then show ?case by simp
next
  case (4 s m r i c)
  then show ?case by (auto simp: close_group_def split: option.splits)
next
  case (5 s k r i c)
  then show ?case by (simp split: if_splits)
next
  case (6 s k r i c)
  from "6.prems"(1) obtain j where "bt s r (i + j) c = Some (e, c')"
    unfolding bt.simps by (blast dest: first_some_SomeD)
  with 6 show ?case by simp
next
  case (7 s k r i c)
  from "7.prems"(1) obtain j where "bt s r (i + j) c = Some (e, c')"
    unfolding bt.simps by (blast dest: first_some_SomeD)
  with 7 show ?case by simp
next
  case (8 s k r i c)
  from "8.prems"(1) obtain j where "bt s r (i + j) c = Some (e, c')"
    unfolding bt.simps by (blast dest: first_some_SomeD)
  with 8 show ?case by simp
qed

lemma search_SomeD: "search re s = Some (i, e, c) \<Longrightarrow> bt s re i [] = Some (e, c)"
  unfolding search_def by (auto dest!: first_some_SomeD)

lemma digit_not_space: "mem Digit a \<Longrightarrow> \<not> mem Space a"
  by simp

section \<open>Room parsing\<close>

lemma rooms_3_1: "fullrooms (u ''3 + 1 '' @ fel @ u '' szoba'') = PStr (u ''3'')
    \<and> halfrooms (u ''3 + 1 '' @ fel @ u '' szoba'') = PStr (u ''1'')"
  by code_simp

lemma rooms_2: "fullrooms (u ''2 szoba'') = PStr (u ''2'') \<and> halfrooms (u ''2 szoba'') = PInt 0"
  by code_simp

lemma rooms_4_half: "halfrooms (u ''4 + '' @ fel @ u '' szoba'') = PInt 1"
  by code_simp

text \<open>
  Claim C4. The text \<open>3 + 1 fel szoba\<close> (the word \<open>fel\<close> with its acute accent, as
  everywhere below) gives the full rooms \<open>3\<close> and the half rooms \<open>1\<close>, both as
  strings; \<open>2 szoba\<close> gives the full rooms \<open>2\<close> and the integer 0 for the half
  rooms; \<open>4 + fel szoba\<close>, with no digit, gives the integer 1 for the half rooms; and on every text where the half-room pattern finds no match the half rooms
  are the integer 0.
\<close>

theorem room_parsing:
  "fullrooms (u ''3 + 1 '' @ fel @ u '' szoba'') = PStr (u ''3'')
   \<and> halfrooms (u ''3 + 1 '' @ fel @ u '' szoba'') = PStr (u ''1'')
   \<and> fullrooms (u ''2 szoba'') = PStr (u ''2'')
   \<and> halfrooms (u ''2 szoba'') = PInt 0
   \<and> halfrooms (u ''4 + '' @ fel @ u '' szoba'') = PInt 1
   \<and> (search halfrooms_regex r = None \<longrightarrow> halfrooms r = PInt 0)"
proof -
  have "search halfrooms_regex r = None \<longrightarrow> halfrooms r = PInt 0"
    by (simp add: halfrooms_def)
  with rooms_3_1 rooms_2 rooms_4_half show ?thesis by blast
qed

theorem room_parsing_witness:
  "search halfrooms_regex (u ''2 szoba'') = None \<and> halfrooms (u ''2 szoba'') = PInt 0"
proof -
  have h: "search halfrooms_regex (u ''2 szoba'') = None" by code_simp
  from room_parsing [of "u ''2 szoba''"] h show ?thesis by blast
qed

section \<open>Price and area\<close>

lemma price_from_1: "price_from (Some (u ''31 900 000 Ft'')) = Inr (u ''31'')"
  by code_simp

lemma price_from_2: "price_from (Some (u ''1,234,567 Ft'')) = Inr (u ''1.234'')"
  by code_simp

lemma area_55: "search_group1 area_regex (Some (u ''55 m'' @ [178])) = Inr (u ''55'')"
  by code_simp

text \<open>
  Claim C1, as the script behaves. The price pattern takes the first run of digits with
  at most one comma inside it, so a page whose first text node with \<open>Ft\<close> is
  \<open>31 900 000 Ft\<close> has the price \<open>31\<close>, and one where it is \<open>1,234,567 Ft\<close> has
  the price \<open>1.234\<close>; a page whose first text node with the square-metre sign is
  \<open>55\<close> followed by that sign has the area \<open>55\<close>.
\<close>

theorem price_area_fixtures:
  "(find_text price_marker s1 = Some (u ''31 900 000 Ft'') \<longrightarrow> price s1 = Inr (u ''31''))
   \<and> (find_text price_marker s2 = Some (u ''1,234,567 Ft'') \<longrightarrow> price s2 = Inr (u ''1.234''))
   \<and> (find_text area_marker s3 = Some (u ''55 m'' @ [178]) \<longrightarrow> area s3 = Inr (u ''55''))"
  by (simp add: price_def area_def price_from_1 price_from_2 area_55)

theorem price_area_fixtures_witness:
  "find_text price_marker (sample_page [u ''abc'', u ''31 900 000 Ft'']) = Some (u ''31 900 000 Ft'')
   \<and> price (sample_page [u ''abc'', u ''31 900 000 Ft'']) = Inr (u ''31'')
   \<and> find_text price_marker (sample_page [u ''1,234,567 Ft'']) = Some (u ''1,234,567 Ft'')
   \<and> price (sample_page [u ''1,234,567 Ft'']) = Inr (u ''1.234'')
   \<and> find_text area_marker (sample_page [u ''5 Ft'', u ''55 m'' @ [178]]) = Some (u ''55 m'' @ [178])
   \<and> area (sample_page [u ''5 Ft'', u ''55 m'' @ [178]]) = Inr (u ''55'')"
proof -
  have h1: "find_text price_marker (sample_page [u ''abc'', u ''31 900 000 Ft'']) = Some (u ''31 900 000 Ft'')"
    by code_simp
  have h2: "find_text price_marker (sample_page [u ''1,234,567 Ft'']) = Some (u ''1,234,567 Ft'')"
    by code_simp
  have h3: "find_text area_marker (sample_page [u ''5 Ft'', u ''55 m'' @ [178]]) = Some (u ''55 m'' @ [178])"
    by code_simp
  from price_area_fixtures [of "sample_page [u ''abc'', u ''31 900 000 Ft'']"
      "sample_page [u ''1,234,567 Ft'']" "sample_page [u ''5 Ft'', u ''55 m'' @ [178]]"] h1 h2 h3
  show ?thesis by blast
qed

text \<open>
  Against claim C1 as worded: the prices \<open>31900000\<close> and \<open>1.234.567\<close> are not what
  the two fragments give.
\<close>

theorem price_fixtures_counterexample:
  "find_text price_marker (sample_page [u ''31 900 000 Ft'']) = Some (u ''31 900 000 Ft'')
   \<and> price (sample_page [u ''31 900 000 Ft'']) = Inr (u ''31'')
   \<and> price (sample_page [u ''31 900 000 Ft'']) \<noteq> Inr (u ''31900000'')
   \<and> find_text price_marker (sample_page [u ''1,234,567 Ft'']) = Some (u ''1,234,567 Ft'')
   \<and> price (sample_page [u ''1,234,567 Ft'']) = Inr (u ''1.234'')
   \<and> price (sample_page [u ''1,234,567 Ft'']) \<noteq> Inr (u ''1.234.567'')"
  by code_simp

section \<open>A digit right after the plus sign\<close>

text \<open>
  Claim C10, as the script behaves. The match of the half-room pattern starts at a
  \<open>+\<close> of the text: the leftmost one from which the pattern matches. When that \<open>+\<close>
  is immediately followed by a digit, the group for the optional whitespace
  is empty, and the half rooms are the integer 1 whatever the digit is: the branch that
  defaults to 1 tests the whitespace group, not the digit group. The same holds for any
  character after the \<open>+\<close> that is not whitespace, so for the decimal digits of every
  script.
\<close>

theorem plus_digit_half_room:
  assumes "search halfrooms_regex r = Some (i, e, c)"
  shows "i < length r \<and> r ! i = 43
         \<and> (mem Digit (r ! Suc i) \<longrightarrow> halfrooms r = PInt 1)
         \<and> (\<not> mem Space (r ! Suc i) \<longrightarrow> halfrooms r = PInt 1)"
proof -
  define rest where "rest = [GOpen 2, Opt Digit, GClose 2, Plus Dot] @ lits fel"
  have re: "halfrooms_regex = lits [43] @ (GOpen 1 # Opt Space # GClose 1 # rest)"
    by (simp add: halfrooms_regex_def rest_def fel_def u_def)
  from assms have "bt r halfrooms_regex i [] = Some (e, c)"
    by (rule search_SomeD)
  then have plus: "i < length r \<and> r ! i = 43"
      and b: "bt r (GOpen 1 # Opt Space # GClose 1 # rest) (Suc i) [] = Some (e, c)"
    unfolding re bt_lits by (simp_all add: prefix_drop_Cons split: if_splits)
  have "halfrooms r = PInt 1" if nospace: "\<not> mem Space (r ! Suc i)"
  proof -
    have "\<not> Suc 0 \<le> run Space r (Suc i)"
      unfolding run_ge1 using nospace by blast
    with b have "bt r rest (Suc i) (close_group 1 (Suc i) [(1, Suc i, Suc i)]) = Some (e, c)"
      by (simp split: option.splits)
    then have "map_of c 1 = map_of (close_group 1 (Suc i) [(1, Suc i, Suc i)]) 1"
      by (rule bt_keeps_group) (auto simp: rest_def lits_def)
    then have "group_of r (i, e, c) 1 = []"
      by (simp add: group_of_def close_group_def)
    with assms show ?thesis by (simp add: halfrooms_def)
  qed
  with plus digit_not_space [of "r ! Suc i"] show ?thesis by blast
qed

theorem plus_digit_half_room_witness:
  "search halfrooms_regex (u ''3 +2 '' @ fel @ u '' szoba'')
     = Some (2, 8, [(2, 3, 4), (2, 3, 3), (1, 3, 3), (1, 3, 3)])
   \<and> (u ''3 +2 '' @ fel @ u '' szoba'') ! 2 = 43
   \<and> mem Digit ((u ''3 +2 '' @ fel @ u '' szoba'') ! Suc 2)
   \<and> \<not> mem Space ((u ''3 +2 '' @ fel @ u '' szoba'') ! Suc 2)
   \<and> halfrooms (u ''3 +2 '' @ fel @ u '' szoba'') = PInt 1"
proof -
  have h1: "search halfrooms_regex (u ''3 +2 '' @ fel @ u '' szoba'')
              = Some (2, 8, [(2, 3, 4), (2, 3, 3), (1, 3, 3), (1, 3, 3)])"
    by code_simp
  have h2: "mem Digit ((u ''3 +2 '' @ fel @ u '' szoba'') ! Suc 2)"
      "\<not> mem Space ((u ''3 +2 '' @ fel @ u '' szoba'') ! Suc 2)"
    by code_simp+
  from plus_digit_half_room [OF h1] h1 h2 show ?thesis by blast
qed

text \<open>
  Against claim C10 as worded: a text may have a \<open>+\<close> with a digit right after it and
  a match of the pattern that starts at an earlier \<open>+\<close>. In \<open>1 + 2 +3 fel szoba\<close>
  the second \<open>+\<close> is followed by \<open>3\<close>, the match starts at the first one, the
  whitespace group holds the space, and the half rooms are the string \<open>2\<close>.
\<close>

theorem plus_digit_counterexample:
  "(u ''1 + 2 +3 '' @ fel @ u '' szoba'') ! 6 = 43
   \<and> mem Digit ((u ''1 + 2 +3 '' @ fel @ u '' szoba'') ! 7)
   \<and> search halfrooms_regex (u ''1 + 2 +3 '' @ fel @ u '' szoba'') \<noteq> None
   \<and> halfrooms (u ''1 + 2 +3 '' @ fel @ u '' szoba'') = PStr (u ''2'')
   \<and> halfrooms (u ''1 + 2 +3 '' @ fel @ u '' szoba'') \<noteq> PInt 1"
  by code_simp

section \<open>Records written and errors counted\<close>

lemma url_loop_counts:
  "length (rows (url_loop pages st))
     = length (rows st) + length (filter (\<lambda>p. \<not> isl (attempt p)) pages)
   \<and> err_count (url_loop pages st)
     = err_count st + length (filter (\<lambda>p. isl (attempt p)) pages)"
proof (induction pages arbitrary: st)
  case Nil
  then show ?case by simp
next
  case (Cons page pages)
  show ?case
  proof (cases "attempt page")
    case (Inl e)
    then show ?thesis by (simp add: Cons.IH iteration_def)
  next
    case (Inr r)
    then show ?thesis by (simp add: Cons.IH iteration_def)
  qed
qed

text \<open>
  Claim C3. On a list of \<open>K\<close> URLs of which exactly \<open>E\<close> iterations raise, in
  fetching, in parsing or in the extraction, the extractor writes \<open>K - E\<close> rows and
  ends with the error counter at \<open>E\<close>.
\<close>

theorem record_and_error_counts:
  assumes "length (filter (\<lambda>p. isl (attempt p)) pages) = E"
  shows "length (rows (extractor pages)) = length pages - E
         \<and> err_count (extractor pages) = E"
proof -
  have "length (filter (\<lambda>p. isl (attempt p)) pages)
          + length (filter (\<lambda>p. \<not> isl (attempt p)) pages) = length pages"
    by (rule sum_length_filter_compl)
  with assms show ?thesis
    using url_loop_counts [of pages "\<lparr>rows = [], err_count = 0, count = 1\<rparr>"]
    by (simp add: extractor_def)
qed

theorem record_and_error_counts_witness:
  "length (filter (\<lambda>p. isl (attempt p))
      [Inr (sample_page sample_texts), Inl URLError, Inr (sample_page [])]) = 2
   \<and> length (rows (extractor [Inr (sample_page sample_texts), Inl URLError, Inr (sample_page [])]))
        = 3 - 2
   \<and> err_count (extractor [Inr (sample_page sample_texts), Inl URLError, Inr (sample_page [])]) = 2"
proof -
  have h: "length (filter (\<lambda>p. isl (attempt p))
      [Inr (sample_page sample_texts), Inl URLError, Inr (sample_page [])]) = 2"
    by code_simp
  from record_and_error_counts [OF h] h show ?thesis by simp
qed

section \<open>A page without a price\<close>

lemma find_text_lits: "find_text (lits w) s = List.find (sublist w) (text_nodes s)"
proof -
  have "(\<lambda>t. search (lits w) t \<noteq> None) = sublist w"
    by (rule ext) (rule search_lits)
  then show ?thesis unfolding find_text_def by (rule arg_cong)
qed

lemma attempt_no_price:
  assumes "find_text price_marker s = None"
  shows "isl (extract_values s)"
proof -
  have "price s = Inl TypeError"
    using assms by (simp add: price_def price_from_def search_group1_def bind_exn_def)
  then show ?thesis
    by (simp add: extract_values_def bind_exn_def split: sum.splits)
qed

text \<open>
  Claim C6. On a page that was fetched and parsed and has no text node containing
  \<open>Ft\<close>, the protected block raises: the iteration writes no row and adds one to the
  error counter, which is exactly what it does when the fetch fails, and the loop goes
  on with the next URL.
\<close>

theorem no_price_text:
  assumes "\<forall>t\<in>set (text_nodes s). \<not> sublist (u ''Ft'') t"
  shows "isl (attempt (Inr s))
         \<and> iteration st (Inr s) = st\<lparr>err_count := err_count st + 1\<rparr>
         \<and> iteration st (Inr s) = iteration st (Inl URLError)
         \<and> url_loop (Inr s # pages) st = url_loop pages (st\<lparr>err_count := err_count st + 1\<rparr>)"
proof -
  from assms have "find_text price_marker s = None"
    by (simp add: price_marker_def find_text_lits find_None_iff)
  then have "isl (extract_values s)" by (rule attempt_no_price)
  then obtain e where "attempt (Inr s) = Inl e"
    by (auto simp: attempt_def bind_exn_def isl_def)
  then show ?thesis
    by (simp add: iteration_def attempt_def bind_exn_def)
qed

theorem no_price_text_witness:
  "text_nodes (sample_page [u ''55 m'' @ [178], u ''2 szoba''])
     = [u ''Elad'' @ [243] @ u '' lak'' @ [225] @ u ''s'', u ''55 m'' @ [178], u ''2 szoba'']
   \<and> \<not> sublist (u ''Ft'') (u ''Elad'' @ [243] @ u '' lak'' @ [225] @ u ''s'')
   \<and> \<not> sublist (u ''Ft'') (u ''55 m'' @ [178]) \<and> \<not> sublist (u ''Ft'') (u ''2 szoba'')
   \<and> isl (attempt (Inr (sample_page [u ''55 m'' @ [178], u ''2 szoba''])))
   \<and> iteration \<lparr>rows = [], err_count = 0, count = 1\<rparr> (Inr (sample_page [u ''55 m'' @ [178], u ''2 szoba'']))
       = \<lparr>rows = [], err_count = 1, count = 1\<rparr>"
proof -
  have h: "\<forall>t\<in>set (text_nodes (sample_page [u ''55 m'' @ [178], u ''2 szoba''])). \<not> sublist (u ''Ft'') t"
    by code_simp
  have n: "text_nodes (sample_page [u ''55 m'' @ [178], u ''2 szoba''])
     = [u ''Elad'' @ [243] @ u '' lak'' @ [225] @ u ''s'', u ''55 m'' @ [178], u ''2 szoba'']"
      "\<not> sublist (u ''Ft'') (u ''Elad'' @ [243] @ u '' lak'' @ [225] @ u ''s'')"
      "\<not> sublist (u ''Ft'') (u ''55 m'' @ [178])" "\<not> sublist (u ''Ft'') (u ''2 szoba'')"
    by code_simp+
  from no_price_text [OF h, of "\<lparr>rows = [], err_count = 0, count = 1\<rparr>" "[]"] n
  show ?thesis by simp
qed

section \<open>The shape of a row\<close>





















section \<open>The room text and the title\<close>







section \<open>The collector\<close>


lemma build_list_unmatched:
  "h \<in> set hs \<Longrightarrow> search href_regex h = None \<Longrightarrow> build_list hs acc = Inl AttributeError"
proof (induction hs arbitrary: acc)
  case Nil
  then show ?case by simp
next
  case (Cons a hs)
  show ?case
  proof (cases "search href_regex a")
    case None
    then show ?thesis by (simp add: href_url_def bind_exn_def)
  next
    case (Some m)
    with Cons.prems have "h \<in> set hs" by auto
    with Cons.IH Cons.prems(2) Some show ?thesis
      by (simp add: href_url_def bind_exn_def)
  qed
qed

lemma page_loop_append:
  "page_loop ord pre st0 = Finished st \<Longrightarrow> page_loop ord (pre @ ps) st0 = page_loop ord ps st"
proof (induction pre arbitrary: st0)
  case Nil
  then show ?case by simp
next
  case (Cons p pre)
  then show ?case by (auto split: sum.splits)
qed

text \<open>
  Claim C2, as the script behaves. The \<open>try\<close> of the collector covers fetching and
  parsing only. When a page was fetched and parsed and one of its selected anchors has
  an \<open>href\<close> the pattern does not match, the AttributeError is raised outside the
  \<open>try\<close> and nothing catches it: the run ends there, with the rows of the earlier
  pages and the error counter as they were, and no later page is processed. A failure
  of fetching or parsing, in contrast, adds one to the error counter and the loop goes
  on with the next page.
\<close>

theorem unmatched_href_ends_run:
  assumes "collector ord pre = Finished st" and "h \<in> set tags_a"
    and "search href_regex h = None"
  shows "collector ord (pre @ Inr tags_a # post) = Uncaught AttributeError st
         \<and> collector ord (pre @ Inl e # post)
             = page_loop ord post (st\<lparr>c_err_count := c_err_count st + 1\<rparr>)"
proof -
  from assms(2,3) have "emitted ord tags_a = Inl AttributeError"
    by (simp add: emitted_def build_list_unmatched bind_exn_def)
  with assms(1) show ?thesis
    by (simp add: collector_def page_loop_append)
qed

theorem unmatched_href_ends_run_witness:
  "collector id [Inl URLError] = Finished \<lparr>c_rows = [], c_err_count = 1\<rparr>
   \<and> u ''/listar'' \<in> set [u ''/123'', u ''/listar'']
   \<and> search href_regex (u ''/listar'') = None
   \<and> collector id ([Inl URLError] @ Inr [u ''/123'', u ''/listar''] # [Inr [u ''/45'']])
       = Uncaught AttributeError \<lparr>c_rows = [], c_err_count = 1\<rparr>"
proof -
  have h1: "collector id [Inl URLError] = Finished \<lparr>c_rows = [], c_err_count = 1\<rparr>"
    by (simp add: collector_def)
  have h2: "u ''/listar'' \<in> set [u ''/123'', u ''/listar'']" by simp
  have h3: "search href_regex (u ''/listar'') = None" by code_simp
  from unmatched_href_ends_run [OF h1 h2 h3] h1 h2 h3 show ?thesis by blast
qed

text \<open>
  Against claim C2 as worded: with a first page that has an anchor whose \<open>href\<close> has
  no digits after a slash, the run does not count an error and go on to write the URL
  of the second page.
\<close>

theorem unmatched_href_counterexample:
  "search href_regex (u ''/listar'') = None
   \<and> collector id [Inr [u ''/listar''], Inr [u ''/45'']]
       = Uncaught AttributeError \<lparr>c_rows = [], c_err_count = 0\<rparr>
   \<and> collector id [Inr [u ''/listar''], Inr [u ''/45'']]
       \<noteq> Finished \<lparr>c_rows = [[u ''http://ingatlan.com/45'']], c_err_count = 1\<rparr>"
proof -
  have "search href_regex (u ''/listar'') = None" by code_simp
  then show ?thesis
    by (simp add: collector_def emitted_def href_url_def bind_exn_def)
qed






section \<open>District and city area\<close>

lemma str_replace_newline: "str_replace [10] [] c = filter (\<lambda>x. x \<noteq> 10) c"
proof (induction c)
  case Nil
  show ?case by (subst str_replace.simps) simp
next
  case (Cons x xs)
  have "str_replace [10] [] (x # xs)
          = (if x = 10 then str_replace [10] [] xs else x # str_replace [10] [] xs)"
    by (subst str_replace.simps) simp
  with Cons show ?case by simp
qed

lemma run_take:
  assumes "j \<le> run k s i"
  shows "length (take j (drop i s)) = j" and "\<forall>x\<in>set (take j (drop i s)). mem k x"
proof -
  let ?d = "drop i s"
  from assms have j: "j \<le> length (takeWhile (mem k) ?d)" by (simp add: run_def)
  have "take j (takeWhile (mem k) ?d @ dropWhile (mem k) ?d) = take j (takeWhile (mem k) ?d)"
    using j by (simp del: takeWhile_dropWhile_id)
  then have t: "take j ?d = take j (takeWhile (mem k) ?d)" by simp
  from j show "length (take j ?d) = j" unfolding t by simp
  show "\<forall>x\<in>set (take j ?d). mem k x"
    unfolding t by (blast dest: in_set_takeD set_takeWhileD)
qed

text \<open>
  What the district pattern captures: a run of digits, a dot, one whitespace character
  and \<open>ker\<close>.
\<close>

lemma district_shape:
  assumes "search district_regex m = Some r"
  shows "\<exists>ds w. ds \<noteq> [] \<and> (\<forall>d\<in>set ds. mem Digit d) \<and> mem Space w
           \<and> group_of m r 1 = ds @ [46, w] @ u ''ker''"
proof -
  obtain i e c where r: "r = (i, e, c)" by (cases r)
  define R5 where "R5 = One Dot # lits (u ''let'')"
  define R3 where "R3 = lits (u ''ker'') @ (GClose 1 # R5)"
  define R1 where "R1 = lits [46] @ (One Space # R3)"
  have re: "district_regex = GOpen 1 # Plus Digit # R1"
    by (simp add: district_regex_def R1_def R3_def R5_def u_def)
  from assms have "bt m district_regex i [] = Some (e, c)"
    unfolding r by (rule search_SomeD)
  then have "first_some (\<lambda>j. bt m R1 (i + j) [(1, i, i)]) (rev [1 ..< Suc (run Digit m i)])
               = Some (e, c)"
    unfolding re by simp
  then obtain j where j: "1 \<le> j" "j \<le> run Digit m i"
      and b1: "bt m R1 (i + j) [(1, i, i)] = Some (e, c)"
    by (auto dest!: first_some_SomeD)
  from b1 have dot: "i + j < length m" "m ! (i + j) = 46"
      and b2: "bt m (One Space # R3) (Suc (i + j)) [(1, i, i)] = Some (e, c)"
    unfolding R1_def bt_lits by (simp_all add: prefix_drop_Cons split: if_splits)
  from b2 have sp: "Suc (i + j) < length m" "mem Space (m ! Suc (i + j))"
      and b3: "bt m R3 (Suc (Suc (i + j))) [(1, i, i)] = Some (e, c)"
    by (simp_all add: run_ge1 split: if_splits)
  from b3 have ker: "prefix (u ''ker'') (drop (Suc (Suc (i + j))) m)"
      and b4: "bt m R5 (Suc (Suc (Suc (Suc (Suc (i + j)))))) (close_group 1 (Suc (Suc (Suc (Suc (Suc (i + j)))))) [(1, i, i)])
                 = Some (e, c)"
    unfolding R3_def bt_lits by (simp_all add: u_def split: if_splits)
  from b4 have "map_of c 1 = map_of (close_group 1 (Suc (Suc (Suc (Suc (Suc (i + j)))))) [(1, i, i)]) 1"
    by (rule bt_keeps_group) (auto simp: R5_def lits_def)
  then have g: "group_of m r 1 = take (j + 5) (drop i m)"
    by (simp add: group_of_def r close_group_def add.commute)
  from ker obtain t3 where t3: "drop (Suc (Suc (i + j))) m = u ''ker'' @ t3"
    by (auto simp: prefix_def)
  define ds where "ds = take j (drop i m)"
  have e1: "drop i m = ds @ drop (i + j) m"
    unfolding ds_def by (metis add.commute append_take_drop_id drop_drop)
  have e2: "drop (i + j) m = 46 # drop (Suc (i + j)) m"
    using dot by (metis Cons_nth_drop_Suc)
  have e3: "drop (Suc (i + j)) m = m ! Suc (i + j) # drop (Suc (Suc (i + j))) m"
    using sp(1) by (metis Cons_nth_drop_Suc)
  have d: "drop i m = ds @ [46, m ! Suc (i + j)] @ u ''ker'' @ t3"
    by (simp only: e1 e2 e3 t3 append.simps)
  have len: "length ds = j" and digits: "\<forall>x\<in>set ds. mem Digit x"
    unfolding ds_def using run_take [OF j(2)] by blast+
  have "take (j + 5) (ds @ [46, m ! Suc (i + j)] @ u ''ker'' @ t3)
          = ds @ [46, m ! Suc (i + j)] @ u ''ker''"
    by (simp add: len u_def)
  then have "take (j + 5) (drop i m) = ds @ [46, m ! Suc (i + j)] @ u ''ker''"
    by (simp only: d)
  with g have gd: "group_of m r 1 = ds @ [46, m ! Suc (i + j)] @ u ''ker''"
    by (simp only:)
  from len j(1) have ne: "ds \<noteq> []" by auto
  show ?thesis
  proof (intro exI conjI)
    show "ds \<noteq> []" by (rule ne)
    show "\<forall>d\<in>set ds. mem Digit d" by (rule digits)
    show "mem Space (m ! Suc (i + j))" by (rule sp(2))
    show "group_of m r 1 = ds @ [46, m ! Suc (i + j)] @ u ''ker''" by (rule gd)
  qed
qed


text \<open>
  Claim C7, as the script behaves. The content of the fifth meta tag, with its newlines
  removed, is searched with two patterns. The district is the first group of
  \<open>(\d+\.\sker).let\<close>, with exactly one whitespace character between the dot and
  \<open>ker\<close>, and the city area is the first group of \<open>\(([A-Z].+)\)\<close>; where a
  pattern finds no match its field is the empty string. Both fields are plain strings
  for every meta string: nothing is raised.
\<close>

theorem meta_fields:
  assumes "4 < length (meta_tags s)" and "meta_tags s ! 4 = Some c"
  shows "\<exists>m. meta s = Inr m \<and> m = filter (\<lambda>x. x \<noteq> 10) c
           \<and> (search district_regex m = None \<longrightarrow> district m = [])
           \<and> (\<forall>r. search district_regex m = Some r \<longrightarrow>
                 district m = group_of m r 1
                 \<and> (\<exists>ds w. ds \<noteq> [] \<and> (\<forall>d\<in>set ds. mem Digit d) \<and> mem Space w
                       \<and> district m = ds @ [46, w] @ u ''ker''))
           \<and> (search varos_regex m = None \<longrightarrow> varos m = [])
           \<and> (\<forall>r. search varos_regex m = Some r \<longrightarrow> varos m = group_of m r 1)"
proof -
  let ?m = "filter (\<lambda>x. x \<noteq> 10) c"
  from assms have "meta s = Inr ?m"
    by (simp add: meta_def str_replace_newline)
  moreover have "search district_regex ?m = None \<longrightarrow> district ?m = []"
    by (simp add: district_def)
  moreover have "\<forall>r. search district_regex ?m = Some r \<longrightarrow>
                 district ?m = group_of ?m r 1
                 \<and> (\<exists>ds w. ds \<noteq> [] \<and> (\<forall>d\<in>set ds. mem Digit d) \<and> mem Space w
                       \<and> district ?m = ds @ [46, w] @ u ''ker'')"
  proof (intro allI impI)
    fix r
    assume r: "search district_regex ?m = Some r"
    then have "district ?m = group_of ?m r 1" by (simp add: district_def)
    with district_shape [OF r] show "district ?m = group_of ?m r 1
                 \<and> (\<exists>ds w. ds \<noteq> [] \<and> (\<forall>d\<in>set ds. mem Digit d) \<and> mem Space w
                       \<and> district ?m = ds @ [46, w] @ u ''ker'')"
      by simp
  qed
  moreover have "search varos_regex ?m = None \<longrightarrow> varos ?m = []"
    by (simp add: varos_def)
  moreover have "\<forall>r. search varos_regex ?m = Some r \<longrightarrow> varos ?m = group_of ?m r 1"
    by (simp add: varos_def)
  ultimately show ?thesis by (intro exI conjI) (rule refl | assumption)+
qed

theorem meta_fields_witness:
  "4 < length (meta_tags (sample_page [])) \<and> meta_tags (sample_page []) ! 4 = Some sample_meta
   \<and> meta (sample_page []) = Inr sample_meta
   \<and> search district_regex sample_meta \<noteq> None \<and> district sample_meta = u ''5. ker''
   \<and> search varos_regex sample_meta \<noteq> None
   \<and> varos sample_meta = u ''Belv'' @ [225] @ u ''ros''
   \<and> 4 < length (meta_tags bare_page) \<and> meta_tags bare_page ! 4 = Some (u ''Budapest'')
   \<and> meta bare_page = Inr (u ''Budapest'')
   \<and> search district_regex (u ''Budapest'') = None \<and> district (u ''Budapest'') = []
   \<and> search varos_regex (u ''Budapest'') = None \<and> varos (u ''Budapest'') = []"
proof -
  have a: "4 < length (meta_tags (sample_page []))"
      "meta_tags (sample_page []) ! 4 = Some sample_meta"
    by code_simp+
  have b: "4 < length (meta_tags bare_page)" "meta_tags bare_page ! 4 = Some (u ''Budapest'')"
    by code_simp+
  have f: "filter (\<lambda>x. x \<noteq> 10) sample_meta = sample_meta"
      "filter (\<lambda>x. x \<noteq> 10) (u ''Budapest'') = u ''Budapest''"
    by code_simp+
  have v: "search district_regex sample_meta \<noteq> None"
      "district sample_meta = u ''5. ker''"
      "search varos_regex sample_meta \<noteq> None"
      "varos sample_meta = u ''Belv'' @ [225] @ u ''ros''"
      "search district_regex (u ''Budapest'') = None"
      "search varos_regex (u ''Budapest'') = None"
    by code_simp+
  from meta_fields [OF a] have m1: "meta (sample_page []) = Inr sample_meta"
    unfolding f by blast
  from meta_fields [OF b] have m2: "meta bare_page = Inr (u ''Budapest'')"
      and "search district_regex (u ''Budapest'') = None \<longrightarrow> district (u ''Budapest'') = []"
      and "search varos_regex (u ''Budapest'') = None \<longrightarrow> varos (u ''Budapest'') = []"
    unfolding f by blast+
  with v have e: "district (u ''Budapest'') = []" "varos (u ''Budapest'') = []"
    by blast+
  from a b m1 m2 v e show ?thesis by blast
qed

text \<open>
  Against claim C7 as worded: with no whitespace after the dot, the pattern of the
  specification, which has \<open>\s*\<close>, captures \<open>5.ker\<close>, and the script leaves the
  district empty.
\<close>

theorem district_counterexample:
  "extract_values (bare_page\<lparr>meta_tags := replicate 5 (Some (u ''5.ker'' @ [252] @ u ''let''))\<rparr>)
     = Inr bare_row
   \<and> bare_row ! 6 = PStr []
   \<and> district (u ''5.ker'' @ [252] @ u ''let'') = []
   \<and> spec_district (u ''5.ker'' @ [252] @ u ''let'') = u ''5.ker''"
  by code_simp

end
